theory Spec2Isabelle
  imports Main "HOL-Library.Word"
begin

unbundle bit_operations_syntax

section \<open>The extensible arena of Corvid20\<close>

text \<open>
  The arena is a singly linked list of blocks. Each block (\<open>list_node\<close>) has a
  \<open>capacity\<close>, a \<open>size\<close> (bytes handed out) and an owning pointer \<open>next\<close> to the block that
  was the head before it. The counters and the request parameters of the source are
  \<open>size_t\<close>; they are modelled as 64-bit words, so that \<open>+\<close>, \<open>-\<close>, \<open>AND\<close> and \<open>NOT\<close> are the machine operations and wrap
  around as they do in the program.
\<close>

type_synonym size_t = "64 word"

subsection \<open>Blocks\<close>

text \<open>
  \<open>struct list_node { size_t capacity; size_t size; pointer next; std::byte data[1]; }\<close>.
  The owning \<open>unique_ptr\<close> is an option (\<open>None\<close> is the null pointer). The field \<open>size\<close>
  is called \<open>node_size\<close> and \<open>next\<close> is called \<open>next_node\<close>, as the source's names are
  taken in HOL. The bytes of \<open>data\<close> are not modelled: an address \<open>data + start\<close> is
  represented by its offset \<open>start\<close>.
\<close>

datatype list_node =
  Node (capacity: size_t) (node_size: size_t) (next_node: "list_node option")

subsection \<open>Thread state and scope objects\<close>

text \<open>
  An \<open>extensible_arena\<close> object owns one head pointer \<open>head_\<close>. The thread-local
  \<open>tls_head\<close> is a \<open>pointer*\<close>: it is null or holds the address of some arena's \<open>head_\<close>
  slot. Arena objects are identified by that address; \<open>arenas\<close> maps the address of each
  live arena's \<open>head_\<close> to the chain it owns. A \<open>scope\<close> object has the one member
  \<open>pointer* old_head\<close>.
\<close>

type_synonym addr = nat

record thread_state =
  tls_head :: "addr option"
  arenas :: "addr \<rightharpoonup> list_node"

record scope =
  old_head :: "addr option"

subsection \<open>Operations on one block\<close>

text \<open>
  \<open>list_node::make(capacity)\<close>: a value-initialised node whose capacity is then set.
  The host's \<open>new\<close> is taken to succeed; when it throws, no block exists and control has
  left the arena.
\<close>

definition make :: "size_t \<Rightarrow> list_node" where
  "make c = Node c 0 None"

text \<open>
  \<open>list_node::allocate(n, align)\<close>. The result is the returned \<open>void*\<close> (\<open>None\<close> for
  \<open>nullptr\<close>, \<open>Some start\<close> for \<open>data + start\<close>) paired with the block after the call.
\<close>

definition align_up :: "size_t \<Rightarrow> size_t \<Rightarrow> size_t" where
  "align_up sz align = (sz + align - 1) AND NOT (align - 1)"

definition node_allocate :: "list_node \<Rightarrow> size_t \<Rightarrow> size_t \<Rightarrow> size_t option \<times> list_node" where
  "node_allocate b n align =
     (let start = align_up (node_size b) align;
          past = start + n
      in if past > capacity b then (None, b)
         else (Some start, Node (capacity b) past (next_node b)))"

subsection \<open>Chain growth\<close>

text \<open>
  \<open>static void* extensible_arena::allocate(pointer& head, size_t n, size_t align)\<close>.
  The head pointer is never null (the constructor and this function only ever store the
  result of \<open>make\<close> in it), so the function is modelled on the block \<open>head\<close> points to and
  returns the block that \<open>head\<close> points to afterwards.
\<close>

definition arena_allocate :: "list_node \<Rightarrow> size_t \<Rightarrow> size_t \<Rightarrow> size_t option \<times> list_node" where
  "arena_allocate head n align =
     (case node_allocate head n align of
        (Some start, head') \<Rightarrow> (Some start, head')
      | (None, head') \<Rightarrow>
          (let new_head = make (min (capacity head') n);
               new_head = Node (capacity new_head) (node_size new_head) (Some head')
           in node_allocate new_head n align))"

subsection \<open>The arena, the thread-local head and scopes\<close>

text \<open>\<open>explicit extensible_arena(size_t capacity)\<close>, constructed at address \<open>a\<close>.\<close>

definition extensible_arena :: "addr \<Rightarrow> size_t \<Rightarrow> thread_state \<Rightarrow> thread_state" where
  "extensible_arena a c st = st\<lparr>arenas := (arenas st)(a \<mapsto> make c)\<rparr>"

datatype fault = AssertionFailed | DanglingHead

text \<open>
  \<open>static void* extensible_arena::allocate(size_t n, size_t align)\<close>, debug build:
  \<open>assert(tls_head)\<close> aborts when the thread-local pointer is null. A non-null pointer to
  an arena that no longer exists is undefined behaviour and is reported as its own fault.
\<close>

definition static_allocate ::
  "thread_state \<Rightarrow> size_t \<Rightarrow> size_t \<Rightarrow> fault + (size_t option \<times> thread_state)" where
  "static_allocate st n align =
     (case tls_head st of
        None \<Rightarrow> Inl AssertionFailed
      | Some p \<Rightarrow>
          (case arenas st p of
             None \<Rightarrow> Inl DanglingHead
           | Some head \<Rightarrow>
               (let (r, head') = arena_allocate head n align
                in Inr (r, st\<lparr>arenas := (arenas st)(p \<mapsto> head')\<rparr>))))"

text \<open>
  \<open>scope::scope(extensible_arena& arena)\<close> initialises \<open>old_head\<close> with \<open>&arena.head_\<close> and
  then stores \<open>&arena.head_\<close> in \<open>tls_head\<close>; \<open>scope::~scope()\<close> stores \<open>old_head\<close> in
  \<open>tls_head\<close>.
\<close>

definition scope_ctor :: "addr \<Rightarrow> thread_state \<Rightarrow> scope \<times> thread_state" where
  "scope_ctor arena st = (\<lparr>old_head = Some arena\<rparr>, st\<lparr>tls_head := Some arena\<rparr>)"

definition scope_dtor :: "scope \<Rightarrow> thread_state \<Rightarrow> thread_state" where
  "scope_dtor sc st = st\<lparr>tls_head := old_head sc\<rparr>"

subsection \<open>The allocator adapter\<close>

text \<open>
  \<open>arena_allocator<T>::allocate(n)\<close> calls
  \<open>extensible_arena::allocate(n * sizeof(T), alignof(T))\<close>; the two constants of the element
  type are parameters. \<open>arena_allocator<T>::deallocate(T*, size_t)\<close> has an empty body. A
  \<open>T*\<close> is represented as the results of allocation are.
\<close>

definition arena_allocator_allocate ::
  "size_t \<Rightarrow> size_t \<Rightarrow> size_t \<Rightarrow> thread_state \<Rightarrow> fault + (size_t option \<times> thread_state)" where
  "arena_allocator_allocate sizeof_T alignof_T n st = static_allocate st (n * sizeof_T) alignof_T"

definition arena_allocator_deallocate :: "size_t option \<Rightarrow> size_t \<Rightarrow> thread_state \<Rightarrow> thread_state" where
  "arena_allocator_deallocate p n st = st"

section \<open>Client code\<close>

subsection \<open>Sequences of adapter calls\<close>

text \<open>
  A container issues a sequence of \<open>allocate\<close> and \<open>deallocate\<close> calls on one adapter.
  \<open>run_calls\<close> performs them in order and collects the pointers returned by the
  \<open>allocate\<close> calls; it stops at the first fault. \<open>allocations\<close> is the same sequence with
  the \<open>deallocate\<close> calls left out.
\<close>

datatype call = Allocate size_t | Deallocate "size_t option" size_t

fun run_calls ::
  "size_t \<Rightarrow> size_t \<Rightarrow> call list \<Rightarrow> thread_state \<Rightarrow> fault + (size_t option list \<times> thread_state)" where
  "run_calls sizeof_T alignof_T [] st = Inr ([], st)"
| "run_calls sizeof_T alignof_T (Allocate n # cs) st =
     (case arena_allocator_allocate sizeof_T alignof_T n st of
        Inl f \<Rightarrow> Inl f
      | Inr (p, st') \<Rightarrow>
          (case run_calls sizeof_T alignof_T cs st' of
             Inl f \<Rightarrow> Inl f
           | Inr (ps, st'') \<Rightarrow> Inr (p # ps, st'')))"
| "run_calls sizeof_T alignof_T (Deallocate p n # cs) st =
     run_calls sizeof_T alignof_T cs (arena_allocator_deallocate p n st)"

fun allocations :: "call list \<Rightarrow> call list" where
  "allocations [] = []"
| "allocations (Allocate n # cs) = Allocate n # allocations cs"
| "allocations (Deallocate p n # cs) = allocations cs"

subsection \<open>Scope objects on the call stack\<close>

text \<open>
  Scope objects have automatic storage: they are destroyed in the reverse order of their
  construction. A thread is its thread-local state together with the scope objects that
  are alive, innermost first. A scope is active when that stack is not empty.
\<close>

type_synonym thread = "thread_state \<times> scope list"

definition enter_scope :: "addr \<Rightarrow> thread \<Rightarrow> thread" where
  "enter_scope arena th =
     (let (sc, st') = scope_ctor arena (fst th) in (st', sc # snd th))"

fun leave_scope :: "thread \<Rightarrow> thread" where
  "leave_scope (st, []) = (st, [])"
| "leave_scope (st, sc # live) = (scope_dtor sc st, live)"

definition scope_active :: "thread \<Rightarrow> bool" where
  "scope_active th \<longleftrightarrow> snd th \<noteq> []"

text \<open>
  A thread opens and closes scopes in some order; \<open>run_events\<close> follows such a history.
\<close>

datatype scope_event = Enter addr | Leave

fun run_events :: "scope_event list \<Rightarrow> thread \<Rightarrow> thread" where
  "run_events [] th = th"
| "run_events (Enter arena # es) th = run_events es (enter_scope arena th)"
| "run_events (Leave # es) th = run_events es (leave_scope th)"

text \<open>
  What such a history maintains: while a scope is alive \<open>tls_head\<close> is not null, and
  every live scope has saved a non-null pointer.
\<close>

definition scopes_ok :: "thread \<Rightarrow> bool" where
  "scopes_ok th \<longleftrightarrow>
     (snd th \<noteq> [] \<longrightarrow> tls_head (fst th) \<noteq> None) \<and>
     list_all (\<lambda>sc. old_head sc \<noteq> None) (snd th)"

text \<open>
  A thread that has constructed arenas \<open>A\<close> (at address 1) and \<open>B\<close> (at address 2), both of
  capacity 64, and has not opened any scope yet.
\<close>

definition two_arenas :: thread where
  "two_arenas =
     (extensible_arena 2 64 (extensible_arena 1 64 \<lparr>tls_head = None, arenas = Map.empty\<rparr>), [])"

section \<open>Vocabulary for the properties of blocks and chains\<close>

text \<open>
  Rounding a natural number up to the nearest multiple of \<open>a\<close>, as a specification of what
  the mask expression of \<open>list_node::allocate\<close> is meant to compute.
\<close>

definition round_up :: "nat \<Rightarrow> nat \<Rightarrow> nat" where
  "round_up s a = (s + a - 1) div a * a"

text \<open>
  The invariant of a block, \<open>size \<le> capacity\<close>, on every block of a chain, and the
  capacities of the blocks of a chain, head first.
\<close>

fun chain_inv :: "list_node \<Rightarrow> bool" where
  "chain_inv (Node c s nx) =
     (s \<le> c \<and> (case nx of None \<Rightarrow> True | Some b \<Rightarrow> chain_inv b))"

fun chain_capacities :: "list_node \<Rightarrow> size_t list" where
  "chain_capacities (Node c s nx) =
     c # (case nx of None \<Rightarrow> [] | Some b \<Rightarrow> chain_capacities b)"

text \<open>
  A request \<open>(n, align)\<close> on block \<open>b\<close> does not wrap around when neither of the two
  additions of \<open>list_node::allocate\<close> exceeds the range of \<open>size_t\<close>.
\<close>

definition no_wrap :: "list_node \<Rightarrow> size_t \<Rightarrow> size_t \<Rightarrow> bool" where
  "no_wrap b n align \<longleftrightarrow>
     unat (node_size b) + unat (align - 1) < 2 ^ 64 \<and>
     unat (align_up (node_size b) align) + unat n < 2 ^ 64"

text \<open>
  A sequence of requests \<open>(n, align)\<close> made of one block: the block after them, the bytes
  they took from it (for each request that succeeded, its padding and its \<open>n\<close> bytes),
  and whether none of them wrapped around.
\<close>

fun run_block :: "list_node \<Rightarrow> (size_t \<times> size_t) list \<Rightarrow> list_node" where
  "run_block b [] = b"
| "run_block b ((n, align) # rs) = run_block (snd (node_allocate b n align)) rs"

fun carved :: "list_node \<Rightarrow> (size_t \<times> size_t) list \<Rightarrow> nat" where
  "carved b [] = 0"
| "carved b ((n, align) # rs) =
     (case node_allocate b n align of
        (None, b') \<Rightarrow> carved b' rs
      | (Some start, b') \<Rightarrow> (unat start - unat (node_size b)) + unat n + carved b' rs)"

fun no_wrap_all :: "list_node \<Rightarrow> (size_t \<times> size_t) list \<Rightarrow> bool" where
  "no_wrap_all b [] = True"
| "no_wrap_all b ((n, align) # rs) =
     (no_wrap b n align \<and> no_wrap_all (snd (node_allocate b n align)) rs)"

section \<open>Word arithmetic of the alignment mask\<close>

lemmas arena_defs = arena_allocate_def node_allocate_def align_up_def make_def Let_def

lemma and_not_eq_diff: "x AND NOT m = x - (x AND m)" for x m :: "'a::len word"
proof -
  have "x - (x AND m) = x AND NOT (x AND m)"
    by (rule disjunctive_diff) (simp add: bit_and_iff)
  also have "\<dots> = x AND NOT m"
    by (rule bit_eqI) (auto simp: bit_and_iff bit_not_iff bit_or_iff)
  finally show ?thesis by simp
qed

lemma unat_and_not: "unat (x AND NOT m) = unat x - unat (x AND m)" for x m :: "'a::len word"
  by (simp add: and_not_eq_diff unat_sub word_and_le2)

lemma unat_and_mask: "unat (x AND mask k) = unat x mod 2 ^ k" for x :: "'a::len word"
proof -
  have "unat (x AND mask k) = unat (take_bit k x)"
    by (simp only: take_bit_eq_mask)
  also have "\<dots> = take_bit k (unat x)"
    by (rule unsigned_take_bit_eq)
  finally show ?thesis by (simp only: take_bit_eq_mod)
qed

lemma pow2_less_64: "k < 64 \<Longrightarrow> (2::nat) ^ k < 2 ^ 64"
  by (rule power_strict_increasing) simp_all

lemma unat_pow2:
  assumes "k < 64" shows "unat (2 ^ k :: size_t) = 2 ^ k"
proof -
  have "(2 ^ k :: size_t) = of_nat (2 ^ k)" by simp
  then have "unat (2 ^ k :: size_t) = (2 ^ k) mod 2 ^ 64"
    by (simp only: unat_of_nat) simp
  then show ?thesis using pow2_less_64 [OF assms] by simp
qed

lemma unat_mask64: "k < 64 \<Longrightarrow> unat (mask k :: size_t) = 2 ^ k - 1"
  by (simp add: mask_eq_exp_minus_1 unat_minus_one unat_pow2)

text \<open>The source's \<open>size + align - 1\<close> is \<open>size + (align - 1)\<close> in \<open>size_t\<close>.\<close>

lemma align_up_alt: "align_up s a = (s + (a - 1)) AND NOT (a - 1)"
  by (simp add: align_up_def algebra_simps)

lemma round_up_ge:
  assumes "0 < a" shows "s \<le> round_up s a"
proof -
  have "(s + a - 1) mod a < a" using assms by simp
  moreover have "(s + a - 1) div a * a + (s + a - 1) mod a = s + a - 1" by simp
  ultimately show ?thesis unfolding round_up_def by linarith
qed

lemma round_up_less:
  assumes "0 < a" shows "round_up s a < s + a"
proof -
  have "(s + a - 1) div a * a + (s + a - 1) mod a = s + a - 1" by simp
  then show ?thesis using assms unfolding round_up_def by linarith
qed

text \<open>
  For a power of two the mask expression rounds up, within \<open>size_t\<close>: the offset is the
  rounded-up size modulo \<open>2 ^ 64\<close>.
\<close>

lemma align_up_pow2_unat:
  assumes "k < 64"
  shows "unat (align_up s (2 ^ k)) = round_up (unat s) (2 ^ k) mod 2 ^ 64"
proof -
  let ?Y = "unat s + 2 ^ k - 1"
  have m: "(2 ^ k - 1 :: size_t) = mask k"
    by (simp add: mask_eq_decr_exp)
  have "unat (s + mask k) = (unat s + (2 ^ k - 1)) mod 2 ^ 64"
    by (simp add: unat_word_ariths unat_mask64 [OF assms])
  then have X: "unat (s + mask k) = ?Y mod 2 ^ 64"
    by simp
  have "unat (align_up s (2 ^ k)) = unat (s + mask k) - unat (s + mask k) mod 2 ^ k"
    by (simp add: align_up_alt m unat_and_not unat_and_mask)
  also have "\<dots> = (?Y mod 2 ^ 64) div 2 ^ k * 2 ^ k"
    by (simp only: X minus_mod_eq_div_mult)
  also have "\<dots> = (?Y div 2 ^ k mod 2 ^ (64 - k)) * 2 ^ k"
    using assms div_exp_mod_exp_eq [of ?Y k "64 - k"] by simp
  also have "\<dots> = (?Y div 2 ^ k * 2 ^ k) mod 2 ^ 64"
    using assms mult_exp_mod_exp_eq [of k 64 "?Y div 2 ^ k"] by simp
  finally show ?thesis by (simp add: round_up_def)
qed

lemma align_up_pow2_dvd: "2 ^ k dvd unat (align_up s (2 ^ k))"
  by (simp add: and_mask_dvd_nat align_up_alt mask_eq_decr_exp and.assoc)

text \<open>Without wrap-around the aligned start is not below the size, for any alignment.\<close>

lemma align_up_ge:
  assumes "unat s + unat (a - 1) < 2 ^ 64"
  shows "s \<le> align_up s a"
proof -
  let ?m = "a - 1" and ?x = "s + (a - 1)"
  have x: "unat ?x = unat s + unat ?m"
    using assms unat_add_lem [of s ?m] by simp
  have "unat (?x AND ?m) \<le> unat ?m"
    using word_and_le1 [of ?x ?m] by (simp add: word_le_nat_alt)
  then have "unat s \<le> unat (align_up s a)"
    by (simp add: align_up_alt unat_and_not x)
  then show ?thesis by (simp add: word_le_nat_alt)
qed

section \<open>Allocation from one block\<close>

text \<open>The two outcomes of \<open>list_node::allocate\<close>.\<close>

lemma node_allocate_cases:
  obtains (no_room) "capacity b < align_up (node_size b) align + n"
      "node_allocate b n align = (None, b)"
  | (carve) "align_up (node_size b) align + n \<le> capacity b"
      "node_allocate b n align =
         (Some (align_up (node_size b) align),
          Node (capacity b) (align_up (node_size b) align + n) (next_node b))"
  by (cases "capacity b < align_up (node_size b) align + n")
     (simp_all add: node_allocate_def Let_def not_less)

text \<open>
  The bounds test of \<open>list_node::allocate\<close> compares \<open>start + n\<close>, computed in \<open>size_t\<close>,
  with the capacity. Where that sum does not wrap around, the test is the comparison of
  the numbers, and a request with no room is rejected with the block left as it was.
\<close>

lemma no_room_iff_nat:
  assumes "unat (align_up (node_size b) align) + unat n < 2 ^ 64"
  shows "capacity b < align_up (node_size b) align + n
     \<longleftrightarrow> unat (capacity b) < unat (align_up (node_size b) align) + unat n"
proof -
  have "unat (align_up (node_size b) align + n) = unat (align_up (node_size b) align) + unat n"
    using assms unat_add_lem [of "align_up (node_size b) align" n] by simp
  then show ?thesis by (simp add: word_less_nat_alt)
qed

lemma no_room_without_wrap:
  assumes "unat (align_up (node_size b) align) + unat n < 2 ^ 64"
    and "unat (capacity b) < unat (align_up (node_size b) align) + unat n"
  shows "node_allocate b n align = (None, b)"
  using assms no_room_iff_nat [OF assms(1)] by (simp add: node_allocate_def Let_def)

text \<open>
  Claim C4 says that every request whose aligned start plus \<open>n\<close> exceeds the capacity is
  answered with \<open>nullptr\<close> and leaves the block untouched, as the comment of
  \<open>list_node::allocate\<close> says (if no room, returns \<open>nullptr\<close>). The bounds test has no
  guard against overflow. On a block of capacity 64 that holds 40 bytes, a request of
  \<open>2 ^ 64 - 8\<close> bytes with alignment 1 starts at offset 40 and needs far more than the 64
  bytes of the block, but \<open>past\<close> wraps around to 32: the call returns \<open>data + 40\<close> and
  stores 32 in \<open>size\<close>.
\<close>

theorem wrapping_request_is_not_rejected:
  "unat (capacity (Node 64 40 None))
     < unat (align_up (node_size (Node 64 40 None)) 1) + unat (18446744073709551608 :: size_t)
   \<and> node_allocate (Node 64 40 None) 18446744073709551608 1 = (Some 40, Node 64 32 None)
   \<and> fst (node_allocate (Node 64 40 None) 18446744073709551608 1) \<noteq> None
   \<and> snd (node_allocate (Node 64 40 None) 18446744073709551608 1) \<noteq> Node 64 40 None"
  by (simp add: arena_defs)

text \<open>
  What a successful call does, in \<open>size_t\<close>: it returns the aligned start and stores
  \<open>start + n\<close> in \<open>size\<close>, within the capacity; capacity and link are unchanged. The first
  allocation of \<open>n \<le> c\<close> bytes with alignment 1 from a fresh block of capacity \<open>c\<close> is at
  offset 0.
\<close>

lemma successful_allocate_in_size_t:
  "(node_allocate b n align = (Some off, b') \<longrightarrow>
      off = align_up (node_size b) align \<and> node_size b' = off + n
      \<and> node_size b' \<le> capacity b' \<and> capacity b' = capacity b \<and> next_node b' = next_node b
      \<and> unat (node_size b') = (unat off + unat n) mod 2 ^ 64)
   \<and> (n \<le> c \<longrightarrow> node_allocate (make c) n 1 = (Some 0, Node c n None))"
proof -
  have "off = align_up (node_size b) align \<and> node_size b' = off + n
      \<and> node_size b' \<le> capacity b' \<and> capacity b' = capacity b \<and> next_node b' = next_node b
      \<and> unat (node_size b') = (unat off + unat n) mod 2 ^ 64"
    if "node_allocate b n align = (Some off, b')"
    using that
    by (cases rule: node_allocate_cases [where b = b and n = n and align = align])
       (auto simp: unat_word_ariths)
  moreover have "node_allocate (make c) n 1 = (Some 0, Node c n None)" if "n \<le> c"
    using that by (simp add: arena_defs not_less)
  ultimately show ?thesis by blast
qed

text \<open>
  Claim C7 says that every successful allocation advances \<open>size\<close> to exactly the end of
  the region it carved. On the block of capacity 64 that holds 40 bytes, the request of
  \<open>2 ^ 64 - 8\<close> bytes with alignment 1 succeeds at offset 40, and \<open>size\<close> is not the end of
  that region, \<open>40 + n\<close>, but 32: it has moved back. The next request of 16 bytes is
  served at offset 32, inside the 40 bytes that were handed out before. The overflow of
  \<open>start + n\<close> that the bounds test does not guard against is the cause.
\<close>

theorem wrapping_request_moves_size_back:
  "node_allocate (Node 64 40 None) 18446744073709551608 1 = (Some 40, Node 64 32 None)
   \<and> unat (node_size (snd (node_allocate (Node 64 40 None) 18446744073709551608 1)))
        < unat (40 :: size_t) + unat (18446744073709551608 :: size_t)
   \<and> node_size (snd (node_allocate (Node 64 40 None) 18446744073709551608 1))
        < node_size (Node 64 40 None)
   \<and> node_allocate (snd (node_allocate (Node 64 40 None) 18446744073709551608 1)) 16 1
        = (Some 32, Node 64 48 None)"
  by (simp add: arena_defs)

text \<open>
  Claim C5: for an alignment \<open>2 ^ k\<close> that \<open>size_t\<close> can hold, the offset returned by a
  successful allocation is a multiple of the alignment, and it is the block's size
  rounded up to the nearest multiple of the alignment, as a \<open>size_t\<close>: modulo \<open>2 ^ 64\<close>.
  Whenever \<open>size + align\<close> does not exceed \<open>2 ^ 64\<close> the reduction does nothing, and the
  offset is the least multiple of the alignment that is not below the size.
\<close>

theorem allocate_offset_aligned:
  assumes "align = 2 ^ k" and "k < 64" and "node_allocate b n align = (Some off, b')"
  shows "unat align dvd unat off
     \<and> unat off = round_up (unat (node_size b)) (unat align) mod 2 ^ 64
     \<and> (unat (node_size b) + unat align \<le> 2 ^ 64 \<longrightarrow>
          unat off = round_up (unat (node_size b)) (unat align)
          \<and> unat (node_size b) \<le> unat off \<and> unat off < unat (node_size b) + unat align)"
proof -
  let ?s = "unat (node_size b)"
  have off: "off = align_up (node_size b) (2 ^ k)"
    using assms(3) unfolding assms(1)
    by (cases rule: node_allocate_cases [where b = b and n = n and align = "2 ^ k"]) simp_all
  have a: "unat align = 2 ^ k"
    by (simp add: assms(1) unat_pow2 [OF assms(2)])
  have 1: "unat align dvd unat off"
    unfolding a off by (rule align_up_pow2_dvd)
  have 2: "unat off = round_up ?s (unat align) mod 2 ^ 64"
    unfolding a off by (rule align_up_pow2_unat [OF assms(2)])
  have 3: "unat off = round_up ?s (unat align) \<and> ?s \<le> unat off \<and> unat off < ?s + unat align"
    if "?s + unat align \<le> 2 ^ 64"
  proof -
    have pos: "0 < unat align" by (simp add: a)
    have "round_up ?s (unat align) < ?s + unat align"
      by (rule round_up_less [OF pos])
    then have "round_up ?s (unat align) < 2 ^ 64"
      using that by linarith
    then have "unat off = round_up ?s (unat align)"
      using 2 by simp
    then show ?thesis
      using round_up_ge [OF pos, of ?s] round_up_less [OF pos, of ?s] by simp
  qed
  show ?thesis using 1 2 3 by blast
qed

theorem allocate_offset_aligned_witness:
  "(8 :: size_t) = 2 ^ 3 \<and> (3 :: nat) < 64
   \<and> node_allocate (Node 64 5 None) 16 8 = (Some 8, Node 64 24 None)
   \<and> unat (8 :: size_t) dvd unat (8 :: size_t)
   \<and> unat (8 :: size_t) = round_up (unat (node_size (Node 64 5 None))) (unat (8 :: size_t)) mod 2 ^ 64
   \<and> unat (node_size (Node 64 5 None)) + unat (8 :: size_t) \<le> 2 ^ 64
   \<and> unat (8 :: size_t) = round_up (unat (node_size (Node 64 5 None))) (unat (8 :: size_t))"
proof -
  have a: "(8 :: size_t) = 2 ^ 3" by simp
  have k: "(3 :: nat) < 64" by simp
  have r: "node_allocate (Node 64 5 None) 16 8 = (Some 8, Node 64 24 None)"
    by (simp add: arena_defs)
  have le: "unat (node_size (Node 64 5 None)) + unat (8 :: size_t) \<le> 2 ^ 64" by simp
  show ?thesis
    using a k r le allocate_offset_aligned [OF a k r] by blast
qed

section \<open>The block invariant\<close>

lemma node_allocate_capacity [simp]: "capacity (snd (node_allocate b n align)) = capacity b"
  by (cases rule: node_allocate_cases [where b = b and n = n and align = align]) simp_all

lemma node_allocate_next [simp]: "next_node (snd (node_allocate b n align)) = next_node b"
  by (cases rule: node_allocate_cases [where b = b and n = n and align = align]) simp_all

lemma node_allocate_inv:
  "node_size b \<le> capacity b \<Longrightarrow>
   node_size (snd (node_allocate b n align)) \<le> capacity (snd (node_allocate b n align))"
  by (cases rule: node_allocate_cases [where b = b and n = n and align = align]) simp_all

lemma chain_inv_iff:
  "chain_inv b \<longleftrightarrow>
     node_size b \<le> capacity b \<and> (case next_node b of None \<Rightarrow> True | Some b' \<Rightarrow> chain_inv b')"
  by (cases b) simp

lemma chain_capacities_eq:
  "chain_capacities b =
     capacity b # (case next_node b of None \<Rightarrow> [] | Some b' \<Rightarrow> chain_capacities b')"
  by (cases b) simp

lemma node_allocate_chain_inv:
  "chain_inv b \<Longrightarrow> chain_inv (snd (node_allocate b n align))"
  using node_allocate_inv [of b n align]
  by (simp add: chain_inv_iff [of b] chain_inv_iff [of "snd (node_allocate b n align)"])

lemma node_allocate_chain_capacities [simp]:
  "chain_capacities (snd (node_allocate b n align)) = chain_capacities b"
  by (simp add: chain_capacities_eq [of b] chain_capacities_eq [of "snd (node_allocate b n align)"])

text \<open>The two paths of the arena's \<open>allocate\<close>: the head serves the request, or the chain grows.\<close>

lemma arena_allocate_cases:
  obtains (in_place) start where
      "node_allocate head n align = (Some start, snd (node_allocate head n align))"
      "arena_allocate head n align = node_allocate head n align"
  | (grow) "node_allocate head n align = (None, head)"
      "arena_allocate head n align =
         node_allocate (Node (min (capacity head) n) 0 (Some head)) n align"
proof (cases rule: node_allocate_cases [where b = head and n = n and align = align])
  case no_room
  then show ?thesis
    by (intro grow) (simp_all add: arena_allocate_def make_def Let_def)
next
  case carve
  then show ?thesis
    by (intro in_place) (simp_all add: arena_allocate_def)
qed

lemma arena_allocate_chain_inv:
  assumes "chain_inv head"
  shows "chain_inv (snd (arena_allocate head n align))"
proof (cases rule: arena_allocate_cases [where head = head and n = n and align = align])
  case (in_place start)
  then show ?thesis using assms by (simp add: node_allocate_chain_inv)
next
  case grow
  have "chain_inv (Node (min (capacity head) n) 0 (Some head))"
    using assms by simp
  then show ?thesis using grow by (simp add: node_allocate_chain_inv)
qed

lemma arena_allocate_chain_capacities:
  "chain_capacities (snd (arena_allocate head n align)) = chain_capacities head
   \<or> tl (chain_capacities (snd (arena_allocate head n align))) = chain_capacities head"
  by (cases rule: arena_allocate_cases [where head = head and n = n and align = align]) simp_all

lemma growth_links_old_head:
  assumes "fst (node_allocate head n align) = None"
  shows "next_node (snd (arena_allocate head n align)) = Some head"
proof (cases rule: arena_allocate_cases [where head = head and n = n and align = align])
  case (in_place start)
  then show ?thesis using assms by (metis fst_conv option.distinct(1))
next
  case grow
  then show ?thesis by simp
qed

lemma node_allocate_mono:
  assumes "no_wrap b n align"
  shows "node_size b \<le> node_size (snd (node_allocate b n align))"
proof (cases rule: node_allocate_cases [where b = b and n = n and align = align])
  case no_room
  then show ?thesis by simp
next
  case carve
  let ?start = "align_up (node_size b) align"
  have "node_size b \<le> ?start"
    using assms by (simp add: no_wrap_def align_up_ge)
  moreover have "unat (?start + n) = unat ?start + unat n"
    using assms unat_add_lem [of ?start n] by (simp add: no_wrap_def)
  ultimately show ?thesis
    using carve by (simp add: word_le_nat_alt)
qed

lemma carved_step:
  assumes "no_wrap b n align"
  shows "unat (node_size b) + carved b [(n, align)]
       = unat (node_size (snd (node_allocate b n align)))"
proof (cases rule: node_allocate_cases [where b = b and n = n and align = align])
  case no_room
  then show ?thesis by simp
next
  case carve
  let ?start = "align_up (node_size b) align"
  have "unat (node_size b) \<le> unat ?start"
    using assms by (simp add: no_wrap_def align_up_ge flip: word_le_nat_alt)
  moreover have "unat (?start + n) = unat ?start + unat n"
    using assms unat_add_lem [of ?start n] by (simp add: no_wrap_def)
  ultimately show ?thesis
    using carve by simp
qed

lemma carved_Cons:
  "carved b ((n, align) # rs) = carved b [(n, align)] + carved (snd (node_allocate b n align)) rs"
  by (simp split: prod.splits option.splits)

lemma carved_run_block:
  "no_wrap_all b rs \<Longrightarrow> unat (node_size b) + carved b rs = unat (node_size (run_block b rs))"
proof (induction rs arbitrary: b)
  case Nil
  show ?case by simp
next
  case (Cons r rs)
  obtain n align where r: "r = (n, align)" by (cases r)
  let ?b' = "snd (node_allocate b n align)"
  from Cons.prems r have nw: "no_wrap b n align" and rest: "no_wrap_all ?b' rs"
    by simp_all
  have "unat (node_size b) + carved b ((n, align) # rs)
      = (unat (node_size b) + carved b [(n, align)]) + carved ?b' rs"
    by (simp only: carved_Cons [of b n align rs] add.assoc)
  also have "\<dots> = unat (node_size ?b') + carved ?b' rs"
    by (simp only: carved_step [OF nw])
  also have "\<dots> = unat (node_size (run_block ?b' rs))"
    by (rule Cons.IH [OF rest])
  finally show ?case
    by (simp add: r)
qed

lemma run_block_capacity [simp]: "capacity (run_block b rs) = capacity b"
  by (induction rs arbitrary: b) auto

lemma run_block_inv:
  "node_size b \<le> capacity b \<Longrightarrow> node_size (run_block b rs) \<le> capacity b"
proof (induction rs arbitrary: b)
  case Nil
  then show ?case by simp
next
  case (Cons r rs)
  obtain n align where r: "r = (n, align)" by (cases r)
  show ?case
    using Cons.IH [of "snd (node_allocate b n align)"] node_allocate_inv [OF Cons.prems, of n align]
    by (simp add: r)
qed

text \<open>
  What the code keeps. Every block of a chain satisfies \<open>size \<le> capacity\<close>: a new block
  does, and the block's and the arena's \<open>allocate\<close> keep it on every block of the chain.
  The capacities of the blocks never change; the arena's \<open>allocate\<close> at most puts one
  new block in front. A request that the head rejects makes the chain grow: the head
  after the call links to the old head, which is as it was. For requests on which neither
  \<open>size + (align - 1)\<close> nor \<open>start + n\<close> wraps around in \<open>size_t\<close> (\<open>no_wrap\<close>), \<open>size\<close> does
  not decrease, and the bytes taken from a block by a sequence of requests, padding
  included, are exactly the growth of \<open>size\<close>.
\<close>

lemma block_invariant_without_wrap:
  assumes "chain_inv head"
  shows "chain_inv (make c)
     \<and> chain_inv (snd (node_allocate head n align))
     \<and> chain_capacities (snd (node_allocate head n align)) = chain_capacities head
     \<and> chain_inv (snd (arena_allocate head n align))
     \<and> (chain_capacities (snd (arena_allocate head n align)) = chain_capacities head
        \<or> tl (chain_capacities (snd (arena_allocate head n align))) = chain_capacities head)
     \<and> (fst (node_allocate head n align) = None \<longrightarrow>
          next_node (snd (arena_allocate head n align)) = Some head)
     \<and> (no_wrap head n align \<longrightarrow>
          node_size head \<le> node_size (snd (node_allocate head n align)))
     \<and> (no_wrap_all head rs \<longrightarrow>
          unat (node_size head) + carved head rs = unat (node_size (run_block head rs))
          \<and> unat (node_size (run_block head rs)) \<le> unat (capacity head))"
proof -
  have inv: "node_size head \<le> capacity head"
    using assms by (simp add: chain_inv_iff [of head])
  have "unat (node_size (run_block head rs)) \<le> unat (capacity head)"
    using run_block_inv [OF inv, of rs] by (simp add: word_le_nat_alt)
  moreover have "chain_inv (make c)"
    by (simp add: make_def)
  ultimately show ?thesis
    using assms node_allocate_chain_inv [of head n align]
      arena_allocate_chain_inv [of head n align]
      arena_allocate_chain_capacities [of head n align]
      growth_links_old_head [of head n align]
      node_allocate_mono [of head n align]
      carved_run_block [of head rs]
    by (simp only: node_allocate_chain_capacities) blast
qed

text \<open>
  Claim C6 says that \<open>size\<close> never decreases and that the bytes successfully allocated
  from one block never exceed its capacity, the first request that would exceed it being
  answered by chain growth. The bounds test of \<open>list_node::allocate\<close> does not guard
  against the overflow of \<open>start + n\<close>. A block of capacity 64 that holds 40 bytes and
  satisfies the invariant accepts a request of \<open>2 ^ 64 - 8\<close> bytes with alignment 1 in
  place: \<open>past\<close> wraps to 32, the call returns offset 40 and sets \<open>size\<close> back from 40 to
  32. The two requests accepted by a fresh block of capacity 64 take more than 64 bytes,
  and the chain does not grow.
\<close>

theorem size_decreases_on_wrapping_request:
  "chain_inv (Node 64 40 None)
   \<and> node_allocate (Node 64 40 None) 18446744073709551608 1 = (Some 40, Node 64 32 None)
   \<and> node_size (snd (node_allocate (Node 64 40 None) 18446744073709551608 1))
        < node_size (Node 64 40 None)
   \<and> unat (capacity (make 64)) < carved (make 64) [(40, 1), (18446744073709551608, 1)]
   \<and> arena_allocate (Node 64 40 None) 18446744073709551608 1 = (Some 40, Node 64 32 None)"
  by (simp add: arena_defs)

section \<open>Chain growth on concrete arenas\<close>

lemmas thread_defs = static_allocate_def scope_ctor_def scope_dtor_def enter_scope_def
  two_arenas_def extensible_arena_def scope_active_def

text \<open>
  Claim C2 says that a block created by growth has capacity \<open>max(capacity, n)\<close>, and in
  particular that an arena of capacity 64 whose head holds 40 bytes grows by a block of
  capacity 64 on a second request of 40 bytes. The source passes
  \<open>std::min(head->capacity, n)\<close> to \<open>list_node::make\<close>: on that arena the new head has
  capacity 40, below the arena's nominal 64, although the header comment of the class says
  that the block size is constant except when it must be enlarged.
\<close>

theorem growth_capacity_is_min_at_64_40:
  "arena_allocate (Node 64 40 None) 40 1 = (Some 0, Node 40 40 (Some (Node 64 40 None)))
   \<and> capacity (snd (arena_allocate (Node 64 40 None) 40 1)) = 40
   \<and> max (64 :: size_t) 40 = 64"
  by (simp add: arena_defs)

text \<open>
  Claim C3 says that a request larger than the block capacity succeeds in a block made to
  measure. With \<open>std::min\<close> the new block has the old capacity, so the retry fails as the
  first attempt did: a request of 100 bytes on a fresh arena of capacity 64 returns
  \<open>nullptr\<close> and leaves an unused block of capacity 64 at the head of the chain.
\<close>

theorem oversized_request_returns_null:
  "arena_allocate (make 64) 100 1 = (None, Node 64 0 (Some (Node 64 0 None)))"
  by (simp add: arena_defs)

text \<open>
  The same holds of every oversized request that the head rejects, whatever the
  alignment: the new block is empty, so the aligned start is 0 and \<open>past\<close> is \<open>n\<close>.
\<close>

lemma oversized_growth_returns_null:
  assumes "capacity head < n" and "fst (node_allocate head n align) = None"
  shows "fst (arena_allocate head n align) = None"
proof -
  have "node_allocate head n align = (None, head)"
    using assms(2) by (auto simp: node_allocate_def Let_def split: if_splits)
  moreover have "min (capacity head) n = capacity head"
    using assms(1) by simp
  ultimately show ?thesis
    using assms(1) by (simp add: arena_defs)
qed

section \<open>Scopes and the thread-local head\<close>

text \<open>
  Claim C10: the constructor of a scope on arena \<open>A\<close> saves the address of \<open>A\<close>'s own head
  slot in \<open>old_head\<close>, whatever \<open>tls_head\<close> held before. The destructor therefore leaves
  \<open>tls_head\<close> pointing at \<open>A\<close>'s head, in whatever state \<open>st'\<close> it runs, and so non-null
  also when the scope was constructed with no binding installed.
\<close>

theorem scope_saves_own_head:
  "old_head (fst (scope_ctor a st)) = Some a
   \<and> tls_head (snd (scope_ctor a st)) = Some a
   \<and> tls_head (scope_dtor (fst (scope_ctor a st)) st') = Some a
   \<and> tls_head (scope_dtor (fst (scope_ctor a \<lparr>tls_head = None, arenas = m\<rparr>)) st') \<noteq> None"
  by (simp add: scope_ctor_def scope_dtor_def)

text \<open>
  Claim C1 says that closing a scope restores the binding that was in effect before it
  was opened. On the thread \<open>two_arenas\<close>, open a scope on \<open>A\<close> (address 1), then one on
  \<open>B\<close> (address 2), and close the inner one: \<open>tls_head\<close> is still \<open>B\<close>'s head, and a request
  of 8 bytes is served from \<open>B\<close> while \<open>A\<close> stays empty. After the outer scope is closed as
  well, no scope is active, \<open>tls_head\<close> is \<open>A\<close>'s head instead of null, and the request
  does not fail the assertion.
\<close>

theorem nested_scopes_restore_inner_arena:
  "tls_head (fst (leave_scope (enter_scope 2 (enter_scope 1 two_arenas)))) = Some 2
   \<and> (case static_allocate (fst (leave_scope (enter_scope 2 (enter_scope 1 two_arenas)))) 8 1 of
        Inl f \<Rightarrow> False
      | Inr (p, st') \<Rightarrow>
          p = Some 0 \<and> arenas st' 1 = Some (Node 64 0 None) \<and> arenas st' 2 = Some (Node 64 8 None))
   \<and> \<not> scope_active (leave_scope (leave_scope (enter_scope 2 (enter_scope 1 two_arenas))))
   \<and> tls_head (fst (leave_scope (leave_scope (enter_scope 2 (enter_scope 1 two_arenas))))) = Some 1
   \<and> static_allocate (fst (leave_scope (leave_scope (enter_scope 2 (enter_scope 1 two_arenas))))) 8 1
       \<noteq> Inl AssertionFailed"
  by (simp add: arena_defs thread_defs)

text \<open>
  Claim C8 says that the assertion of the static entry point fails exactly when no scope
  is active. Before any scope is opened it does fail. After one scope on \<open>A\<close> has been
  opened and closed, no scope is active, but \<open>tls_head\<close> still points at \<open>A\<close>'s head: the
  assertion passes and the request is served from \<open>A\<close>.
\<close>

theorem assertion_passes_after_scope_closed:
  "static_allocate (fst two_arenas) 8 1 = Inl AssertionFailed
   \<and> \<not> scope_active (leave_scope (enter_scope 1 two_arenas))
   \<and> tls_head (fst (leave_scope (enter_scope 1 two_arenas))) = Some 1
   \<and> (case static_allocate (fst (leave_scope (enter_scope 1 two_arenas))) 8 1 of
        Inl f \<Rightarrow> False
      | Inr (p, st') \<Rightarrow> p = Some 0 \<and> arenas st' 1 = Some (Node 64 8 None))"
  by (simp add: arena_defs thread_defs)

text \<open>
  The other half of the claim holds: on a thread that opens and closes scopes in stack
  order, starting with none, the assertion never fires while a scope is active.
\<close>

lemma scopes_ok_enter: "scopes_ok th \<Longrightarrow> scopes_ok (enter_scope a th)"
  by (simp add: scopes_ok_def enter_scope_def scope_ctor_def)

lemma scopes_ok_leave: "scopes_ok th \<Longrightarrow> scopes_ok (leave_scope th)"
  by (cases th rule: leave_scope.cases) (auto simp: scopes_ok_def scope_dtor_def)

lemma scopes_ok_run: "scopes_ok th \<Longrightarrow> scopes_ok (run_events es th)"
  by (induction es th rule: run_events.induct) (simp_all add: scopes_ok_enter scopes_ok_leave)

lemma active_scope_has_head:
  assumes "scope_active (run_events es (st, []))"
  shows "static_allocate (fst (run_events es (st, []))) n align \<noteq> Inl AssertionFailed"
proof -
  have "scopes_ok (run_events es (st, []))"
    by (rule scopes_ok_run) (simp add: scopes_ok_def)
  then obtain p where "tls_head (fst (run_events es (st, []))) = Some p"
    using assms by (auto simp: scopes_ok_def scope_active_def)
  then show ?thesis
    by (simp add: static_allocate_def split: option.splits prod.splits)
qed

section \<open>The adapter's deallocate\<close>

lemma run_calls_allocations:
  "run_calls sizeof_T alignof_T (allocations cs) st = run_calls sizeof_T alignof_T cs st"
proof (induction cs arbitrary: st)
  case Nil
  show ?case by simp
next
  case (Cons c cs)
  show ?case
  proof (cases c)
    case (Allocate n)
    then show ?thesis
      by (simp add: Cons.IH split: sum.splits prod.splits)
  next
    case (Deallocate p n)
    then show ?thesis
      by (simp add: Cons.IH arena_allocator_deallocate_def)
  qed
qed

text \<open>
  Claim C9: \<open>deallocate\<close> leaves the thread state, and with it every arena and block, as
  it is, for every pointer and count. So a sequence of adapter calls returns the same
  pointers, ends in the same state and faults in the same cases as the sequence without
  its \<open>deallocate\<close> calls, wherever and however often they occur.
\<close>

theorem deallocate_is_noop:
  "arena_allocator_deallocate p n st = st
   \<and> run_calls sizeof_T alignof_T cs st = run_calls sizeof_T alignof_T (allocations cs) st"
  by (simp add: run_calls_allocations arena_allocator_deallocate_def)

end
